theory Spec2Isabelle
  imports Main "HOL-Library.Multiset"
begin

unbundle bit_operations_syntax

section \<open>Glob matching (rupypy/utils/glob.py)\<close>

text \<open>
  A shallow embedding of the class \<open>Glob\<close>. Python exceptions are values of the type
  \<open>error\<close>; a pure function returns \<open>error + 'a\<close> (\<open>Inl\<close> the exception raised), a
  function that appends to the shared match list returns the list as it stands when the
  function stops, together with the way it stopped. The worklist loop of the recursive
  nodes may run forever on a file system that is not a finite tree, so every function
  that reaches it returns an \<open>option\<close>, \<open>None\<close> standing for a walk that never returns.
\<close>

subsection \<open>Exceptions and the file system\<close>

datatype error =
    TypeError | IndexError | AssertionError | NameError | AttributeError | OSError | ReError

text \<open>
  The operating system and the standard library, as the four calls the module makes:
  \<open>os.path.exists\<close>, \<open>os.path.isdir\<close>, \<open>os.listdir\<close> (which raises) and
  \<open>fnmatch.fnmatch name pattern\<close> (which raises when the pattern translates to a
  malformed regular expression).
\<close>

record world =
  path_exists :: "string \<Rightarrow> bool"
  path_isdir :: "string \<Rightarrow> bool"
  listdir :: "string \<Rightarrow> error + string list"
  fnmatch :: "string \<Rightarrow> string \<Rightarrow> error + bool"

definition FNM_NOESCAPE :: int where
  "FNM_NOESCAPE = 1"

definition FNM_DOTMATCH :: int where
  "FNM_DOTMATCH = 4"

subsection \<open>Nodes\<close>

text \<open>
  The class \<open>Node\<close> has the fields \<open>flags\<close>, \<open>next\<close> and \<open>separator\<close>; each subclass
  adds its own: \<open>dir\<close>, \<open>name\<close> and \<open>suffixes\<close>, \<open>glob\<close>.
\<close>

datatype kind =
    ConstantDirectory string
  | ConstantEntry string "string list"
  | RootDirectory
  | RecursiveDirectories
  | StartRecursiveDirectories
  | DirectoryMatch string
  | EntryMatch string "string list"
  | DirectoriesOnly

datatype node =
  Node (kind: kind) (flags: int) (nxt: "node option") (separator: "string option")

fun depth :: "node \<Rightarrow> nat" where
  "depth (Node k fl None sp) = 0"
| "depth (Node k fl (Some n) sp) = Suc (depth n)"

definition set_separator :: "string option \<Rightarrow> node \<Rightarrow> node" where
  "set_separator v n = Node (kind n) (flags n) (nxt n) v"

text \<open>\<open>self.separator or "/"\<close>: \<open>None\<close> and the empty string both give the default.\<close>

definition get_separator :: "string option \<Rightarrow> string" where
  "get_separator sp = (case sp of None \<Rightarrow> ''/'' | Some s \<Rightarrow> if s = [] then ''/'' else s)"

text \<open>\<open>not parent\<close> holds of \<open>None\<close> and of the empty string.\<close>

definition truthy :: "string option \<Rightarrow> bool" where
  "truthy p = (case p of None \<Rightarrow> False | Some s \<Rightarrow> s \<noteq> [])"

definition path_join :: "string option \<Rightarrow> string option \<Rightarrow> string \<Rightarrow> string" where
  "path_join sp parent ent =
     (if \<not> truthy parent then ent
      else if parent = Some ''/'' then ''/'' @ ent
      else the parent @ get_separator sp @ ent)"

text \<open>The constructors. \<open>Glob.Node.__init__\<close> stores its arguments and no separator.\<close>

definition ConstantDirectory_init :: "node option \<Rightarrow> int \<Rightarrow> string \<Rightarrow> node" where
  "ConstantDirectory_init nx fl dir = Node (ConstantDirectory dir) fl nx None"

text \<open>
  \<open>ConstantEntry.__init__(self, nxt, flags, name, suffixes)\<close> starts with the call
  \<open>Glob.ConstantEntry.__init__(self, nxt, flags, name)\<close>: its own five-parameter
  initialiser, given four arguments. Python raises \<open>TypeError\<close> there, before any field
  is stored.
\<close>

definition ConstantEntry_init ::
  "node option \<Rightarrow> int \<Rightarrow> string \<Rightarrow> string list \<Rightarrow> error + node" where
  "ConstantEntry_init nx fl name suffixes = Inl TypeError"

text \<open>\<open>str.replace old new\<close>, scanning left to right over non-overlapping occurrences.\<close>

function str_replace :: "string \<Rightarrow> string \<Rightarrow> string \<Rightarrow> string" where
  "str_replace old new s =
     (if old = [] \<or> s = [] then s
      else if take (length old) s = old then new @ str_replace old new (drop (length old) s)
      else hd s # str_replace old new (tl s))"
  by pat_completeness auto
termination
  by (relation "measure (\<lambda>(old, new, s). length s)") auto

text \<open>
  \<open>DirectoryMatch.__init__\<close> stores \<open>glob\<close> through \<open>Match.__init__\<close> and then evaluates
  \<open>self.glob.replace("**", "*")\<close> as a statement: the new string is not assigned.
\<close>

definition DirectoryMatch_init :: "node option \<Rightarrow> int \<Rightarrow> string \<Rightarrow> node" where
  "DirectoryMatch_init nx fl glob =
     (let self = Node (DirectoryMatch glob) fl nx None;
          discarded = str_replace ''**'' ''*'' glob
      in self)"

definition EntryMatch_init :: "node option \<Rightarrow> int \<Rightarrow> string \<Rightarrow> string list \<Rightarrow> node" where
  "EntryMatch_init nx fl globs suffixes = Node (EntryMatch globs suffixes) fl nx None"

subsection \<open>Regular expressions used by the compiler\<close>

text \<open>
  Modelled from the spec: the module \<open>rupypy.utils.regexp\<close> (and the engine
  \<open>rsre_core\<close> behind it) is not part of the sources at hand. The three expressions the
  compiler searches for are written out in \<open>glob.py\<close>; each is given the meaning the
  spec states for it: \<open>/+\<close> locates a run of one or more separator characters,
  \<open>^[a-zA-Z0-9._]+$\<close> holds of a name that consists solely of letters, digits, \<open>.\<close> and
  \<open>_\<close>, and \<open>^[^\*\?\]]+\<close> holds of a segment whose leading run has no wildcard
  metacharacter, that is, a segment whose first character exists and is none of
  \<open>*\<close>, \<open>?\<close>, \<open>]\<close>.
\<close>

definition is_slash :: "char \<Rightarrow> bool" where
  "is_slash c = (c = CHR ''/'')"

definition name_char :: "char \<Rightarrow> bool" where
  "name_char c =
     (let k = (of_char c :: nat)
      in (97 \<le> k \<and> k \<le> 122) \<or> (65 \<le> k \<and> k \<le> 90) \<or> (48 \<le> k \<and> k \<le> 57)
         \<or> c = CHR ''.'' \<or> c = CHR ''_'')"

definition constant_name :: "string \<Rightarrow> bool" where
  "constant_name file = (file \<noteq> [] \<and> list_all name_char file)"

definition literal_lead :: "string \<Rightarrow> bool" where
  "literal_lead dir =
     (case dir of [] \<Rightarrow> False
      | c # cs \<Rightarrow> c \<noteq> CHR ''*'' \<and> c \<noteq> CHR ''?'' \<and> c \<noteq> CHR '']'')"

subsection \<open>The path splitter\<close>

text \<open>
  The search loop of \<open>path_split\<close>. \<open>rest\<close> is \<open>string[last_end:]\<close>; each match of
  \<open>/+\<close> appends the text before it and the run itself.
\<close>

function split_loop :: "string \<Rightarrow> string list \<Rightarrow> string list \<times> string" where
  "split_loop rest ret =
     (if list_ex is_slash rest then
        (let seg = takeWhile (\<lambda>c. \<not> is_slash c) rest;
             from_start = dropWhile (\<lambda>c. \<not> is_slash c) rest;
             sep = takeWhile is_slash from_start;
             from_end = dropWhile is_slash from_start
         in split_loop from_end (ret @ [seg, sep]))
      else (ret, rest))"
  by pat_completeness auto
termination
proof (relation "measure (\<lambda>(rest, ret). length rest)")
  show "wf (measure (\<lambda>(rest, ret). length rest))" by simp
next
  fix rest :: string and ret :: "string list" and seg from_start sep from_end
  assume ex: "list_ex is_slash rest"
    and fs: "from_start = dropWhile (\<lambda>c. \<not> is_slash c) rest"
    and fe: "from_end = dropWhile is_slash from_start"
  from ex have ne: "from_start \<noteq> []"
    unfolding fs by (simp add: list_ex_iff)
  then have "is_slash (hd from_start)"
    unfolding fs using hd_dropWhile [of "\<lambda>c. \<not> is_slash c" rest] by simp
  with ne have "length from_end < length from_start"
    unfolding fe by (cases from_start) (auto intro: le_imp_less_Suc length_dropWhile_le)
  moreover have "length from_start \<le> length rest"
    unfolding fs by (rule length_dropWhile_le)
  ultimately show "((from_end, ret @ [seg, sep]), (rest, ret)) \<in> measure (\<lambda>(rest, ret). length rest)"
    by simp
qed

text \<open>
  \<open>while len(ret[-1]) == 0: ret.pop()\<close>. The guard \<open>if ret:\<close> is tested once, before the
  loop, so the loop reads \<open>ret[-1]\<close> of an emptied list.
\<close>

function drop_trailing_empty :: "string list \<Rightarrow> error + string list" where
  "drop_trailing_empty ret =
     (if ret = [] then Inl IndexError
      else if length (last ret) = 0 then drop_trailing_empty (butlast ret)
      else Inr ret)"
  by pat_completeness auto
termination
  by (relation "measure length") auto

definition path_split :: "string \<Rightarrow> error + string list" where
  "path_split string =
     (let (ret, rest) = split_loop string [];
          ret = ret @ [rest]
      in if ret \<noteq> [] then drop_trailing_empty ret else Inr ret)"

subsection \<open>The pattern compiler\<close>

text \<open>
  The folding loop of \<open>single_compile\<close>. Before the loop and at the end of each round
  the source computes \<open>partidx = len(parts) - 2\<close>, asserts \<open>partidx >= 0\<close> and searches
  \<open>parts[partidx]\<close>; a round pops a separator and a segment and puts them in front of
  \<open>dir\<close>.
\<close>

function fold_literal :: "string list \<Rightarrow> string \<Rightarrow> error + (string list \<times> string)" where
  "fold_literal parts dir =
     (let partidx = int (length parts) - 2
      in if \<not> partidx \<ge> 0 then Inl AssertionError
         else if literal_lead (parts ! nat partidx) then
           (let next_sep = last parts;
                parts1 = butlast parts;
                next_sect = last parts1;
                parts2 = butlast parts1
            in fold_literal parts2 (next_sect @ next_sep @ dir))
         else Inr (parts, dir))"
  by pat_completeness auto
termination
  by (relation "measure (\<lambda>(parts, dir). length parts)") auto

text \<open>
  The loop \<open>while parts:\<close> of \<open>single_compile\<close>; \<open>chain\<close> is the variable \<open>last\<close>.
  \<open>parts.pop()\<close> raises \<open>IndexError\<close> on an empty list.
\<close>

function build_chain :: "int \<Rightarrow> string list \<Rightarrow> node \<Rightarrow> error + node" where
  "build_chain fl parts chain =
     (if parts = [] then Inr chain
      else
        (let chain1 = set_separator (Some (last parts)) chain;
             parts1 = butlast parts
         in if parts1 = [] then Inl IndexError
            else
              (let dir = last parts1;
                   parts2 = butlast parts1
               in if dir = ''**'' then
                    (if parts2 \<noteq> [] then
                       build_chain fl parts2 (Node RecursiveDirectories fl (Some chain1) None)
                     else
                       build_chain fl parts2 (Node StartRecursiveDirectories fl (Some chain1) None))
                  else if literal_lead dir then
                    (case fold_literal parts2 dir of
                       Inl e \<Rightarrow> Inl e
                     | Inr (parts3, dir3) \<Rightarrow>
                         build_chain fl parts3 (ConstantDirectory_init (Some chain1) fl dir3))
                  else if length dir > 0 then
                    build_chain fl parts2 (DirectoryMatch_init (Some chain1) fl dir)
                  else build_chain fl parts2 chain1)))"
  by pat_completeness auto

declare fold_literal.simps [simp del]

lemma fold_literal_length:
  "fold_literal parts dir = Inr (parts', dir') \<Longrightarrow> length parts' \<le> length parts"
proof (induction parts dir rule: fold_literal.induct)
  case (1 parts dir)
  show ?case
  proof (cases "int (length parts) - 2 \<ge> 0 \<and> literal_lead (parts ! nat (int (length parts) - 2))")
    case True
    with "1.prems" have
      "fold_literal (butlast (butlast parts)) (last (butlast parts) @ last parts @ dir)
         = Inr (parts', dir')"
      by (subst (asm) fold_literal.simps) (simp add: Let_def)
    with True "1.IH" have "length parts' \<le> length (butlast (butlast parts))"
      by (simp add: Let_def)
    then show ?thesis by simp
  next
    case False
    with "1.prems" show ?thesis
      by (subst (asm) fold_literal.simps) (auto simp: Let_def split: if_splits)
  qed
qed

termination build_chain
  apply (relation "measure (\<lambda>(fl, parts, chain). length parts)")
       apply (auto dest!: fold_literal_length)
  subgoal for parts a by (cases parts) auto
  done

declare build_chain.simps [simp del]

text \<open>
  \<open>single_compile\<close>. \<open>path_split\<close> comes first, then \<open>glob[-1]\<close>; the leaf is built, the
  loop wraps it, and \<open>glob[0] == "/"\<close> adds the root node. The function returns \<open>last\<close>,
  which is a node on every path that returns.
\<close>

definition single_compile ::
  "string \<Rightarrow> int \<Rightarrow> string list option \<Rightarrow> error + node option" where
  "single_compile glob fl suffixes =
     (case path_split glob of
        Inl e \<Rightarrow> Inl e
      | Inr parts \<Rightarrow>
          if glob = [] then Inl IndexError
          else
            (case (if last glob = CHR ''/'' then Inr (parts, Node DirectoriesOnly fl None None)
                   else if parts = [] then Inl IndexError
                   else
                     (let file = last parts;
                          parts1 = butlast parts;
                          suffixes1 = (case suffixes of None \<Rightarrow> [[]] | Some ss \<Rightarrow> ss)
                      in if constant_name file then
                           map_sum id (Pair parts1) (ConstantEntry_init None fl file suffixes1)
                         else Inr (parts1, EntryMatch_init None fl file suffixes1))) of
               Inl e \<Rightarrow> Inl e
             | Inr (parts1, leaf) \<Rightarrow>
                 (case build_chain fl parts1 leaf of
                    Inl e \<Rightarrow> Inl e
                  | Inr chain \<Rightarrow>
                      if hd glob = CHR ''/'' then Inr (Some (Node RootDirectory fl (Some chain) None))
                      else Inr (Some chain))))"

subsection \<open>The brace expander\<close>

text \<open>
  The first loop of \<open>compile\<close>, entered at \<open>i = pattern.find("{")\<close> with \<open>nest = 0\<close>.
  It returns \<open>(lbrace, rbrace)\<close>, \<open>-1\<close> standing for "not set". In the branch for an
  escape character the source assigns \<open>escapes = true\<close>; \<open>true\<close> is not a Python name, so
  the assignment raises \<open>NameError\<close>.
\<close>

function brace_scan :: "bool \<Rightarrow> string \<Rightarrow> nat \<Rightarrow> int \<Rightarrow> int \<Rightarrow> error + (int \<times> int)" where
  "brace_scan escape pattern i nest lbrace =
     (if i < length pattern then
        (let char = pattern ! i;
             lbrace1 = (if char = CHR ''{'' then int i else lbrace);
             nest1 = (if char = CHR ''{'' then nest + 1
                      else if char = CHR ''}'' then nest - 1 else nest)
         in if nest1 = 0 then Inr (lbrace1, int i)
            else if char = CHR 0x5C \<and> escape then Inl NameError
            else brace_scan escape pattern (i + 1) nest1 lbrace1)
      else Inr (lbrace, - 1))"
  by pat_completeness auto
termination
  by (relation "measure (\<lambda>(escape, pattern, i, nest, lbrace). length pattern - i)") auto

declare brace_scan.simps [simp del]

text \<open>
  The inner loop of the second phase: from \<open>pos\<close> it runs to the next \<open>?\<close> at nesting
  depth zero, or to \<open>rbrace\<close>, and returns the final \<open>pos\<close>.
\<close>

function alt_end :: "bool \<Rightarrow> string \<Rightarrow> nat \<Rightarrow> nat \<Rightarrow> int \<Rightarrow> nat" where
  "alt_end escape pattern rbrace pos nest =
     (if pos < rbrace \<and> \<not> (pattern ! pos = CHR ''?'' \<and> nest = 0) then
        (let nest1 = (if pattern ! pos = CHR ''{'' then nest + 1
                      else if pattern ! pos = CHR ''}'' then nest - 1 else nest)
         in if pattern ! pos = CHR 0x5C \<and> escape then
              (if pos + 1 = rbrace then pos + 1
               else alt_end escape pattern rbrace (pos + 1 + 1) nest1)
            else alt_end escape pattern rbrace (pos + 1) nest1)
      else pos)"
  by pat_completeness auto
termination
  by (relation "measure (\<lambda>(escape, pattern, rbrace, pos, nest). rbrace - pos)") auto

declare alt_end.simps [simp del]

text \<open>
  Python's slice \<open>s[a:b]\<close> for indices that are not negative.
\<close>

definition slice :: "string \<Rightarrow> nat \<Rightarrow> nat \<Rightarrow> string" where
  "slice s a b = take (b - a) (drop a s)"

text \<open>
  The outer loop \<open>while pos < rbrace\<close>: the patterns \<open>front + pattern[last:pos] + back\<close>
  in the order the loop builds them. Building them has no effect and cannot fail, so
  the list is computed first and \<open>compile\<close> then recurses over it in that order.
\<close>

function brace_patterns :: "bool \<Rightarrow> string \<Rightarrow> string \<Rightarrow> string \<Rightarrow> nat \<Rightarrow> nat \<Rightarrow> string list" where
  "brace_patterns escape pattern front back rbrace pos =
     (if pos < rbrace then
        (let last_pos = pos + 1;
             pos1 = alt_end escape pattern rbrace last_pos 0;
             brace_pattern = front @ slice pattern last_pos pos1 @ back
         in brace_pattern # brace_patterns escape pattern front back rbrace pos1)
      else [])"
  by pat_completeness auto

lemma alt_end_bounds:
  "pos \<le> rbrace \<Longrightarrow>
     pos \<le> alt_end escape pattern rbrace pos nest \<and> alt_end escape pattern rbrace pos nest \<le> rbrace"
proof (induction escape pattern rbrace pos nest rule: alt_end.induct)
  case (1 escape pattern rbrace pos nest)
  note eq = alt_end.simps [of escape pattern rbrace pos nest]
  show ?case
  proof (cases "pos < rbrace \<and> \<not> (pattern ! pos = CHR ''?'' \<and> nest = 0)")
    case False
    then have "alt_end escape pattern rbrace pos nest = pos"
      unfolding eq by (rule if_not_P)
    with "1.prems" show ?thesis by simp
  next
    case True
    define nest1 where "nest1 = (if pattern ! pos = CHR ''{'' then nest + 1
                      else if pattern ! pos = CHR ''}'' then nest - 1 else nest)"
    from True have step: "alt_end escape pattern rbrace pos nest =
         (if pattern ! pos = CHR 0x5C \<and> escape then
              (if pos + 1 = rbrace then pos + 1
               else alt_end escape pattern rbrace (pos + 1 + 1) nest1)
            else alt_end escape pattern rbrace (pos + 1) nest1)"
      unfolding eq nest1_def Let_def by (rule if_P)
    show ?thesis
    proof (cases "pattern ! pos = CHR 0x5C \<and> escape")
      case esc: True
      show ?thesis
      proof (cases "pos + 1 = rbrace")
        case True
        have "alt_end escape pattern rbrace pos nest = pos + 1"
          unfolding step if_P [OF esc] using True by (rule if_P)
        with True show ?thesis by simp
      next
        case False
        with True esc have le: "pos + 1 + 1 \<le> rbrace" by simp
        have
          "alt_end escape pattern rbrace pos nest = alt_end escape pattern rbrace (pos + 1 + 1) nest1"
          unfolding step if_P [OF esc] using False by (rule if_not_P)
        moreover have "pos + 1 + 1 \<le> alt_end escape pattern rbrace (pos + 1 + 1) nest1
            \<and> alt_end escape pattern rbrace (pos + 1 + 1) nest1 \<le> rbrace"
          using "1.IH"(1) [OF True nest1_def esc False le] .
        ultimately show ?thesis by simp
      qed
    next
      case noesc: False
      from True have le: "pos + 1 \<le> rbrace" by simp
      from noesc have
        "alt_end escape pattern rbrace pos nest = alt_end escape pattern rbrace (pos + 1) nest1"
        unfolding step by (rule if_not_P)
      moreover have "pos + 1 \<le> alt_end escape pattern rbrace (pos + 1) nest1
            \<and> alt_end escape pattern rbrace (pos + 1) nest1 \<le> rbrace"
        using "1.IH"(2) [OF True nest1_def noesc le] .
      ultimately show ?thesis by simp
    qed
  qed
qed

termination brace_patterns
proof (relation "measure (\<lambda>(escape, pattern, front, bck, rbrace, pos). rbrace - pos)", goal_cases)
  case 1
  show ?case by simp
next
  case (2 escape pattern front bck rbrace pos last_pos pos1)
  then show ?case
    using alt_end_bounds [of "pos + 1" rbrace escape pattern 0] by auto
qed

declare brace_patterns.simps [simp del]

lemma brace_scan_rbrace:
  "brace_scan escape pattern i nest lbrace = Inr (lb, rb) \<Longrightarrow> rb > - 1 \<Longrightarrow> nat rb < length pattern"
proof (induction escape pattern i nest lbrace rule: brace_scan.induct)
  case (1 escape pattern i nest lbrace)
  note eq = brace_scan.simps [of escape pattern i nest lbrace]
  show ?case
  proof (cases "i < length pattern")
    case False
    then have "brace_scan escape pattern i nest lbrace = Inr (lbrace, - 1)"
      unfolding eq by (rule if_not_P)
    with "1.prems" show ?thesis by simp
  next
    case True
    define char where "char = pattern ! i"
    define lbrace1 where "lbrace1 = (if char = CHR ''{'' then int i else lbrace)"
    define nest1 where "nest1 = (if char = CHR ''{'' then nest + 1
                      else if char = CHR ''}'' then nest - 1 else nest)"
    from True have step: "brace_scan escape pattern i nest lbrace =
        (if nest1 = 0 then Inr (lbrace1, int i)
            else if char = CHR 0x5C \<and> escape then Inl NameError
            else brace_scan escape pattern (i + 1) nest1 lbrace1)"
      unfolding eq char_def lbrace1_def nest1_def Let_def by (rule if_P)
    show ?thesis
    proof (cases "nest1 = 0")
      case z: True
      with step "1.prems" True show ?thesis by simp
    next
      case nz: False
      show ?thesis
      proof (cases "char = CHR 0x5C \<and> escape")
        case True
        with step nz "1.prems" show ?thesis by simp
      next
        case False
        with step nz "1.prems" have "brace_scan escape pattern (i + 1) nest1 lbrace1 = Inr (lb, rb)"
          by simp
        from "1.IH" [OF True char_def lbrace1_def nest1_def nz False this "1.prems"(2)]
        show ?thesis .
      qed
    qed
  qed
qed

lemma brace_patterns_length:
  "bp \<in> set (brace_patterns escape pattern front bck rbrace pos) \<Longrightarrow>
     pos < rbrace \<and> length bp + pos + 1 \<le> length front + rbrace + length bck"
proof (induction escape pattern front bck rbrace pos rule: brace_patterns.induct)
  case (1 escape pattern front bck rbrace pos)
  note eq = brace_patterns.simps [of escape pattern front bck rbrace pos]
  show ?case
  proof (cases "pos < rbrace")
    case False
    then have "brace_patterns escape pattern front bck rbrace pos = []"
      unfolding eq by (rule if_not_P)
    with "1.prems" show ?thesis by simp
  next
    case True
    define pos1 where "pos1 = alt_end escape pattern rbrace (pos + 1) 0"
    from True have step: "brace_patterns escape pattern front bck rbrace pos =
        (front @ slice pattern (pos + 1) pos1 @ bck) # brace_patterns escape pattern front bck rbrace pos1"
      unfolding eq pos1_def Let_def by (rule if_P)
    from True have b: "pos + 1 \<le> pos1 \<and> pos1 \<le> rbrace"
      unfolding pos1_def using alt_end_bounds [of "pos + 1" rbrace escape pattern 0] by simp
    from "1.prems" step consider
      (hd) "bp = front @ slice pattern (pos + 1) pos1 @ bck"
      | (tl) "bp \<in> set (brace_patterns escape pattern front bck rbrace pos1)"
      by auto
    then show ?thesis
    proof cases
      case hd
      have "length (slice pattern (pos + 1) pos1) \<le> pos1 - (pos + 1)"
        by (simp add: slice_def)
      with hd b True show ?thesis by auto
    next
      case tl
      from "1.IH" [OF True refl pos1_def refl tl] b True show ?thesis by simp
    qed
  qed
qed

text \<open>
  \<open>compile\<close> calls itself once for each pattern of the loop, on the one list
  \<open>patterns\<close>; an exception of a call ends the loop.
\<close>

primrec each_pattern :: "('a \<Rightarrow> 'b \<Rightarrow> error + 'b) \<Rightarrow> 'a list \<Rightarrow> 'b \<Rightarrow> error + 'b" where
  "each_pattern f [] acc = Inr acc"
| "each_pattern f (x # xs) acc =
     (case f x acc of Inl e \<Rightarrow> Inl e | Inr acc1 \<Rightarrow> each_pattern f xs acc1)"

lemma each_pattern_cong [fundef_cong]:
  "xs = ys \<Longrightarrow> acc = acc' \<Longrightarrow> (\<And>x a. x \<in> set ys \<Longrightarrow> f x a = g x a) \<Longrightarrow>
     each_pattern f xs acc = each_pattern g ys acc'"
proof (induction ys arbitrary: xs acc acc')
  case Nil
  then show ?case by simp
next
  case (Cons y ys)
  then show ?case by (auto split: sum.splits)
qed

text \<open>\<open>str.find\<close> for a single character: the first index, or \<open>-1\<close>.\<close>

definition str_find :: "string \<Rightarrow> char \<Rightarrow> int" where
  "str_find s c = (if c \<in> set s then int (length (takeWhile (\<lambda>x. x \<noteq> c) s)) else - 1)"

definition find_braces :: "bool \<Rightarrow> string \<Rightarrow> error + (int \<times> int)" where
  "find_braces escape pattern =
     (let i = str_find pattern (CHR ''{'')
      in if i > - 1 then brace_scan escape pattern (nat i) 0 (- 1) else Inr (- 1, - 1))"

text \<open>
  \<open>compile\<close>. The parameter \<open>patterns\<close> is the list the nodes are appended to (the
  default \<open>None\<close> is the empty list). \<open>escape\<close> is \<open>flags & FNM_NOESCAPE == 0\<close>, where
  \<open>&\<close> binds tighter than \<open>==\<close>.
\<close>

function compile :: "string \<Rightarrow> int \<Rightarrow> node list \<Rightarrow> error + node list" where
  "compile pattern fl patterns =
     (let escape = (fl AND FNM_NOESCAPE = 0)
      in case find_braces escape pattern of
           Inl e \<Rightarrow> Inl e
         | Inr (lbrace, rbrace) \<Rightarrow>
             if lbrace > - 1 \<and> rbrace > - 1 then
               each_pattern (\<lambda>brace_pattern ps. compile brace_pattern fl ps)
                 (brace_patterns escape pattern
                    (slice pattern 0 (nat lbrace))
                    (slice pattern (nat rbrace + 1) (length pattern))
                    (nat rbrace) (nat lbrace))
                 patterns
             else
               (case single_compile pattern fl None of
                  Inl e \<Rightarrow> Inl e
                | Inr node \<Rightarrow>
                    (case node of Some n \<Rightarrow> Inr (patterns @ [n]) | None \<Rightarrow> Inr patterns)))"
  by pat_completeness auto
termination
proof (relation "measure (\<lambda>(pattern, fl, patterns). length pattern)", goal_cases)
  case 1
  show ?case by simp
next
  case (2 pattern fl patterns escape x2 lbrace rbrace bp a)
  from 2(2) 2(1) have "brace_scan escape pattern (nat (str_find pattern (CHR ''{''))) 0 (- 1)
      = Inr (lbrace, rbrace)"
    using 2(3) 2(4) by (auto simp: find_braces_def Let_def split: if_splits)
  from brace_scan_rbrace [OF this] 2(4) have rb: "nat rbrace < length pattern" by simp
  from brace_patterns_length [OF 2(5)]
  have "length bp + nat lbrace + 1
      \<le> length (slice pattern 0 (nat lbrace)) + nat rbrace
        + length (slice pattern (nat rbrace + 1) (length pattern))" by simp
  moreover have "length (slice pattern 0 (nat lbrace)) \<le> nat lbrace" by (simp add: slice_def)
  moreover have "length (slice pattern (nat rbrace + 1) (length pattern))
      = length pattern - (nat rbrace + 1)" by (simp add: slice_def)
  ultimately show ?case using rb by simp
qed
declare compile.simps [simp del]

subsection \<open>The node execution engine\<close>

text \<open>
  A call of a node returns the match list as the call leaves it and either \<open>Inr ()\<close>
  (the call returned) or \<open>Inl e\<close> (it raised \<open>e\<close>); the list is mutated in place, so
  what was appended before an exception stays appended.
\<close>

type_synonym outcome = "string list \<times> (error + unit)"

text \<open>
  A \<open>for\<close> loop over a list, with the state \<open>s\<close> the body updates. The loop ends at
  the first exception of the body, and never returns if the body does not.
\<close>

primrec for_each ::
  "('a \<Rightarrow> 's \<Rightarrow> ('s \<times> (error + unit)) option) \<Rightarrow> 'a list \<Rightarrow> 's \<Rightarrow> ('s \<times> (error + unit)) option" where
  "for_each body [] s = Some (s, Inr ())"
| "for_each body (x # xs) s =
     (case body x s of
        None \<Rightarrow> None
      | Some (s1, Inl e) \<Rightarrow> Some (s1, Inl e)
      | Some (s1, Inr u) \<Rightarrow> for_each body xs s1)"

definition allow_dots :: "int \<Rightarrow> bool" where
  "allow_dots fl = (fl AND FNM_DOTMATCH \<noteq> 0)"

definition ismatch :: "world \<Rightarrow> string \<Rightarrow> string \<Rightarrow> error + bool" where
  "ismatch w glob string = fnmatch w string glob"

text \<open>
  The body of the loops over a directory listing in \<open>call_with_stack\<close> and in
  \<open>StartRecursiveDirectories.call\<close>; \<open>mk ent\<close> is the path tested and pushed
  (\<open>path_join(path, ent)\<close> in the first, \<open>ent\<close> in the second). In
  \<open>isdir(full) and (allow_dots() or ent[0] != ".")\<close> the index \<open>ent[0]\<close> is evaluated
  only if the tests before it do not decide, and raises on an empty name. The path is
  appended to the stack before the continuation is called.
\<close>

definition visit ::
  "world \<Rightarrow> (string list \<Rightarrow> string \<Rightarrow> outcome option) \<Rightarrow> bool \<Rightarrow> (string \<Rightarrow> string) \<Rightarrow>
     string \<Rightarrow> string list \<times> string list \<Rightarrow> ((string list \<times> string list) \<times> (error + unit)) option" where
  "visit w next_call dots mk ent s =
     (let full = mk ent; stack = fst s; matches = snd s
      in if \<not> path_isdir w full then Some (s, Inr ())
         else if \<not> dots \<and> ent = [] then Some (s, Inl IndexError)
         else if dots \<or> hd ent \<noteq> CHR ''.'' then
           (case next_call matches full of
              None \<Rightarrow> None
            | Some (matches1, r) \<Rightarrow> Some ((stack @ [full], matches1), r))
         else Some (s, Inr ()))"

text \<open>
  The loop \<open>while stack:\<close> of \<open>call_with_stack\<close>. \<open>stack.pop()\<close> takes the last
  element. The \<open>try\<close> block holds the listing and the whole \<open>for\<close> loop, and catches
  \<open>OSError\<close> only. \<open>pushed\<close> is a ghost variable: the log of the paths put on the
  stack, in order, to which the loop adds each path it appends; no test reads it.
\<close>

partial_function (option) walk ::
  "world \<Rightarrow> (string list \<Rightarrow> string \<Rightarrow> outcome option) \<Rightarrow> bool \<Rightarrow> string option \<Rightarrow>
     string list \<Rightarrow> string list \<Rightarrow> string list \<Rightarrow> (string list \<times> outcome) option" where
  "walk w next_call dots sp stack pushed matches =
     (if stack = [] then Some (pushed, matches, Inr ())
      else
        (let path = last stack; stack1 = butlast stack
         in case listdir w path of
              Inl e \<Rightarrow>
                if e = OSError then walk w next_call dots sp stack1 pushed matches
                else Some (pushed, matches, Inl e)
            | Inr ents \<Rightarrow>
                (case for_each (visit w next_call dots (path_join sp (Some path))) ents
                        (stack1, matches) of
                   None \<Rightarrow> None
                 | Some ((stack2, matches2), r) \<Rightarrow>
                     (let pushed2 = pushed @ drop (length stack1) stack2
                      in if r = Inr () \<or> r = Inl OSError then
                           walk w next_call dots sp stack2 pushed2 matches2
                         else Some (pushed2, matches2, r)))))"

declare walk.simps [code]

text \<open>
  \<open>call_with_stack\<close>: the copy of \<open>self.next\<close> that carries the separator of \<open>self\<close>
  is called on \<open>start\<close> (\<open>switched_call\<close>), then the loop runs. The result carries the
  ghost log in front: the stack the method is given, followed by the paths the loop
  appends to it.
\<close>

definition call_with_stack ::
  "world \<Rightarrow> (string list \<Rightarrow> outcome option) \<Rightarrow> (string list \<Rightarrow> string \<Rightarrow> outcome option) \<Rightarrow>
     bool \<Rightarrow> string option \<Rightarrow> string list \<Rightarrow> string list \<Rightarrow> (string list \<times> outcome) option" where
  "call_with_stack w switched_call next_call dots sp stack matches =
     (case switched_call matches of
        None \<Rightarrow> None
      | Some (matches1, Inl e) \<Rightarrow> Some (stack, matches1, Inl e)
      | Some (matches1, Inr u) \<Rightarrow> walk w next_call dots sp stack stack matches1)"

text \<open>
  \<open>RecursiveDirectories.call\<close> and \<open>StartRecursiveDirectories.call\<close>, given the two ways
  they call the continuation (\<open>switched_call\<close> and \<open>next_call\<close>). The first starts the walk
  on the stack \<open>[start]\<close>; the second builds the stack from the directories of the
  working directory, calling the continuation on each, and raises where \<open>start\<close> is not
  empty. Both results carry the ghost log of the stack in front; it is empty where no
  stack was built.
\<close>

definition RecursiveDirectories_call ::
  "world \<Rightarrow> (string list \<Rightarrow> outcome option) \<Rightarrow> (string list \<Rightarrow> string \<Rightarrow> outcome option) \<Rightarrow>
     bool \<Rightarrow> string option \<Rightarrow> string list \<Rightarrow> string option \<Rightarrow> (string list \<times> outcome) option" where
  "RecursiveDirectories_call w switched_call next_call dots sp matches start =
     (case start of
        None \<Rightarrow> Some ([], matches, Inl TypeError)
      | Some s \<Rightarrow>
          if \<not> path_exists w s then Some ([], matches, Inr ())
          else call_with_stack w switched_call next_call dots sp [s] matches)"

definition StartRecursiveDirectories_call ::
  "world \<Rightarrow> (string list \<Rightarrow> outcome option) \<Rightarrow> (string list \<Rightarrow> string \<Rightarrow> outcome option) \<Rightarrow>
     bool \<Rightarrow> string option \<Rightarrow> string list \<Rightarrow> string option \<Rightarrow> (string list \<times> outcome) option" where
  "StartRecursiveDirectories_call w switched_call next_call dots sp matches start =
     (if truthy start then Some ([], matches, Inl TypeError)
      else
        (case listdir w ''.'' of
           Inl e \<Rightarrow> Some ([], matches, Inl e)
         | Inr ents \<Rightarrow>
             (case for_each (visit w next_call dots (\<lambda>ent. ent)) ents ([], matches) of
                None \<Rightarrow> None
              | Some ((stack, matches1), Inl e) \<Rightarrow> Some (stack, matches1, Inl e)
              | Some ((stack, matches1), Inr u) \<Rightarrow>
                  call_with_stack w switched_call next_call dots sp stack matches1)))"

text \<open>The loop of \<open>ConstantEntry.call\<close>.\<close>

primrec probe_suffixes :: "world \<Rightarrow> string \<Rightarrow> string list \<Rightarrow> string list \<Rightarrow> string list" where
  "probe_suffixes w stem [] matches = matches"
| "probe_suffixes w stem (s # ss) matches =
     (let path = stem @ s
      in probe_suffixes w stem ss (if path_exists w path then matches @ [path] else matches))"

text \<open>The body of the inner loop of \<open>EntryMatch.call\<close>.\<close>

definition match_suffix ::
  "world \<Rightarrow> string \<Rightarrow> string option \<Rightarrow> string option \<Rightarrow> string \<Rightarrow> string \<Rightarrow> string list \<Rightarrow> outcome option" where
  "match_suffix w glob sp path f suffix matches =
     (let ent = f @ suffix
      in case ismatch w glob ent of
           Inl e \<Rightarrow> Some (matches, Inl e)
         | Inr b \<Rightarrow> Some (if b then matches @ [path_join sp path ent] else matches, Inr ()))"

lemma depth_set_separator [simp]: "depth (set_separator v n) = depth n"
  by (cases n; cases "nxt n") (auto simp: set_separator_def)

text \<open>
  \<open>call\<close>, one branch for each class; the two recursive classes drop the ghost log of
  their method. A node whose \<open>next\<close> is \<open>None\<close> raises
  \<open>AttributeError\<close> where it uses it. \<open>os.path.exists(None)\<close> raises \<open>TypeError\<close>;
  \<open>raise "invalid usage"\<close> raises \<open>TypeError\<close> as well, a string being no exception.
\<close>

function call :: "world \<Rightarrow> node \<Rightarrow> string list \<Rightarrow> string option \<Rightarrow> outcome option" where
  "call w (Node k fl nx sp) matches path =
     (case k of
        ConstantDirectory dir \<Rightarrow>
          (let full = path_join sp path dir
           in case nx of
                None \<Rightarrow> Some (matches, Inl AttributeError)
              | Some n \<Rightarrow> call w n matches (Some full))
      | ConstantEntry name suffixes \<Rightarrow>
          (let stem = path_join sp path name
           in Some (probe_suffixes w stem suffixes matches, Inr ()))
      | RootDirectory \<Rightarrow>
          (case nx of
             None \<Rightarrow> Some (matches, Inl AttributeError)
           | Some n \<Rightarrow> call w n matches (Some ''/''))
      | RecursiveDirectories \<Rightarrow>
          map_option snd
            (RecursiveDirectories_call w
               (\<lambda>m. case nx of
                       None \<Rightarrow> Some (m, Inl AttributeError)
                     | Some n \<Rightarrow> call w (set_separator sp n) m path)
               (\<lambda>m p. case nx of
                         None \<Rightarrow> Some (m, Inl AttributeError)
                       | Some n \<Rightarrow> call w n m (Some p))
               (allow_dots fl) sp matches path)
      | StartRecursiveDirectories \<Rightarrow>
          map_option snd
            (StartRecursiveDirectories_call w
               (\<lambda>m. case nx of
                       None \<Rightarrow> Some (m, Inl AttributeError)
                     | Some n \<Rightarrow> call w (set_separator sp n) m path)
               (\<lambda>m p. case nx of
                         None \<Rightarrow> Some (m, Inl AttributeError)
                       | Some n \<Rightarrow> call w n m (Some p))
               (allow_dots fl) sp matches path)
      | DirectoryMatch glob \<Rightarrow>
          if truthy path \<and> \<not> path_exists w (the path) then Some (matches, Inr ())
          else
            (case listdir w (if truthy path then the path else ''.'') of
               Inl e \<Rightarrow> Some (matches, Inl e)
             | Inr ents \<Rightarrow>
                 for_each
                   (\<lambda>ent m.
                      case ismatch w glob ent of
                        Inl e \<Rightarrow> Some (m, Inl e)
                      | Inr b \<Rightarrow>
                          if b then
                            (let full = path_join sp path ent
                             in if path_isdir w full then
                                  (case nx of
                                     None \<Rightarrow> Some (m, Inl AttributeError)
                                   | Some n \<Rightarrow> call w n m (Some full))
                                else Some (m, Inr ()))
                          else Some (m, Inr ()))
                   ents matches)
      | EntryMatch glob suffixes \<Rightarrow>
          if truthy path \<and> \<not> path_exists w (the path @ ''/.'') then Some (matches, Inr ())
          else
            (case listdir w (if truthy path then the path else ''.'') of
               Inl e \<Rightarrow> if e = OSError then Some (matches, Inr ()) else Some (matches, Inl e)
             | Inr entries \<Rightarrow>
                 for_each (\<lambda>f. for_each (match_suffix w glob sp path f) suffixes) entries matches)
      | DirectoriesOnly \<Rightarrow>
          if truthy path \<and> path_exists w (the path @ ''/.'') then
            Some (matches @ [the path @ ''/''], Inr ())
          else Some (matches, Inr ()))"
  by pat_completeness auto
termination
  by (relation "measure (\<lambda>(w, n, matches, path). depth n)") auto

declare call.simps [simp del]

text \<open>
  The call of a node together with the ghost log of its stack: what the methods of the
  two recursive classes return, with the continuations \<open>call\<close> gives them, and the empty
  log for the other classes, which have no stack.
\<close>

definition logged_call ::
  "world \<Rightarrow> node \<Rightarrow> string list \<Rightarrow> string option \<Rightarrow> (string list \<times> outcome) option" where
  "logged_call w node matches path =
     (let switched_call =
            (\<lambda>m. case nxt node of
                   None \<Rightarrow> Some (m, Inl AttributeError)
                 | Some n \<Rightarrow> call w (set_separator (separator node) n) m path);
          next_call =
            (\<lambda>m p. case nxt node of
                     None \<Rightarrow> Some (m, Inl AttributeError)
                   | Some n \<Rightarrow> call w n m (Some p))
      in case kind node of
           RecursiveDirectories \<Rightarrow>
             RecursiveDirectories_call w switched_call next_call
               (allow_dots (flags node)) (separator node) matches path
         | StartRecursiveDirectories \<Rightarrow>
             StartRecursiveDirectories_call w switched_call next_call
               (allow_dots (flags node)) (separator node) matches path
         | _ \<Rightarrow> map_option (Pair []) (call w node matches path))"

subsection \<open>The public operations\<close>

text \<open>\<open>run\<close> returns \<open>env.matches\<close>, the list it was given.\<close>

definition run ::
  "world \<Rightarrow> node \<Rightarrow> string list option \<Rightarrow> (string list \<times> (error + string list)) option" where
  "run w node matches =
     (let matches0 = (case matches of None \<Rightarrow> [] | Some m \<Rightarrow> m)
      in case call w node matches0 None of
           None \<Rightarrow> None
         | Some (matches1, Inl e) \<Rightarrow> Some (matches1, Inl e)
         | Some (matches1, Inr u) \<Rightarrow> Some (matches1, Inr matches1))"

text \<open>
  \<open>glob\<close>. The result is the list \<open>matches\<close> as the call leaves it, and what the call
  returned: \<open>Inr (Some ms)\<close> for a list, \<open>Inr None\<close> for Python's \<open>None\<close>, which is the
  value of a call that ends without a \<open>return\<close> statement, as the branch for a pattern
  with a brace does.
\<close>

definition glob ::
  "world \<Rightarrow> string \<Rightarrow> int \<Rightarrow> string list option \<Rightarrow>
     (string list \<times> (error + string list option)) option" where
  "glob w pattern fl matches =
     (let matches0 = (case matches of None \<Rightarrow> [] | Some m \<Rightarrow> m)
      in if CHR ''{'' \<in> set pattern then
           (case compile pattern fl [] of
              Inl e \<Rightarrow> Some (matches0, Inl e)
            | Inr patterns \<Rightarrow>
                (case for_each
                        (\<lambda>node m. case run w node (Some m) of
                                    None \<Rightarrow> None
                                  | Some (m1, Inl e) \<Rightarrow> Some (m1, Inl e)
                                  | Some (m1, Inr ms) \<Rightarrow> Some (m1, Inr ()))
                        patterns matches0 of
                   None \<Rightarrow> None
                 | Some (matches1, Inl e) \<Rightarrow> Some (matches1, Inl e)
                 | Some (matches1, Inr u) \<Rightarrow> Some (matches1, Inr None)))
         else
           (case single_compile pattern fl None of
              Inl e \<Rightarrow> Some (matches0, Inl e)
            | Inr node \<Rightarrow>
                (case node of
                   Some n \<Rightarrow>
                     (case run w n (Some matches0) of
                        None \<Rightarrow> None
                      | Some (matches1, Inl e) \<Rightarrow> Some (matches1, Inl e)
                      | Some (matches1, Inr ms) \<Rightarrow> Some (matches1, Inr (Some ms)))
                 | None \<Rightarrow> Some (matches0, Inr (Some matches0)))))"

subsection \<open>The standard library's matcher, and file systems given by a table\<close>

text \<open>
  \<open>fnmatch.fnmatch\<close> of Python 2 on a POSIX system, where \<open>os.path.normcase\<close> changes
  nothing: \<open>fnmatch.translate\<close> turns the pattern into a regular expression, which must
  match the whole name. \<open>*\<close> becomes \<open>.*\<close>, \<open>?\<close> becomes \<open>.\<close> (the expression is compiled
  with DOTALL), \<open>[seq]\<close> and \<open>[!seq]\<close> become a character set, a \<open>[\<close> with no closing
  \<open>]\<close> and every other character stand for themselves. A leading \<open>.\<close> of the name is not
  special. A range whose end is below its start makes \<open>re.compile\<close> raise.
\<close>

datatype regex_item = AnyRun | AnyChar | Lit char | CharSet bool "(char \<times> char) list"

fun set_items :: "string \<Rightarrow> error + (char \<times> char) list" where
  "set_items [] = Inr []"
| "set_items (c # d # e # rest) =
     (if d = CHR ''-'' then
        (if (of_char e :: nat) < of_char c then Inl ReError
         else map_sum id (Cons (c, e)) (set_items rest))
      else map_sum id (Cons (c, c)) (set_items (d # e # rest)))"
| "set_items (c # rest) = map_sum id (Cons (c, c)) (set_items rest)"

function translate :: "string \<Rightarrow> error + regex_item list" where
  "translate [] = Inr []"
| "translate (c # pat) =
     (if c = CHR ''*'' then map_sum id (Cons AnyRun) (translate pat)
      else if c = CHR ''?'' then map_sum id (Cons AnyChar) (translate pat)
      else if c = CHR ''['' then
        (let j0 = (if 0 < length pat \<and> pat ! 0 = CHR ''!'' then 1 else 0);
             j1 = (if j0 < length pat \<and> pat ! j0 = CHR '']'' then j0 + 1 else j0);
             j = j1 + length (takeWhile (\<lambda>x. x \<noteq> CHR '']'') (drop j1 pat))
         in if j \<ge> length pat then map_sum id (Cons (Lit CHR ''['')) (translate pat)
            else
              (let stuff = take j pat
               in case (if hd stuff = CHR ''!'' then map_sum id (CharSet True) (set_items (tl stuff))
                        else map_sum id (CharSet False) (set_items stuff)) of
                    Inl e \<Rightarrow> Inl e
                  | Inr item \<Rightarrow> map_sum id (Cons item) (translate (drop (j + 1) pat))))
      else map_sum id (Cons (Lit c)) (translate pat))"
  by pat_completeness auto
termination
  by (relation "measure length") auto

definition in_set :: "(char \<times> char) list \<Rightarrow> char \<Rightarrow> bool" where
  "in_set items c =
     list_ex (\<lambda>(lo, hi). (of_char lo :: nat) \<le> of_char c \<and> (of_char c :: nat) \<le> of_char hi) items"

fun re_match :: "regex_item list \<Rightarrow> string \<Rightarrow> bool" where
  "re_match [] s = (s = [])"
| "re_match (AnyRun # r) [] = re_match r []"
| "re_match (AnyRun # r) (c # s) = (re_match r (c # s) \<or> re_match (AnyRun # r) s)"
| "re_match (AnyChar # r) [] = False"
| "re_match (AnyChar # r) (c # s) = re_match r s"
| "re_match (Lit x # r) [] = False"
| "re_match (Lit x # r) (c # s) = (x = c \<and> re_match r s)"
| "re_match (CharSet neg items # r) [] = False"
| "re_match (CharSet neg items # r) (c # s) = ((in_set items c \<noteq> neg) \<and> re_match r s)"

definition fnmatch_posix :: "string \<Rightarrow> string \<Rightarrow> error + bool" where
  "fnmatch_posix name pat =
     (case translate pat of Inl e \<Rightarrow> Inl e | Inr r \<Rightarrow> Inr (re_match r name))"

text \<open>
  A file system given by a table: \<open>dirs\<close> maps the path of each directory to its listing,
  \<open>files\<close> are the paths of the other entries. A directory is also reached through its
  entry \<open>.\<close>; listing anything but a directory raises \<open>OSError\<close>.
\<close>

definition strip_dot :: "string \<Rightarrow> string" where
  "strip_dot p =
     (if 2 \<le> length p \<and> drop (length p - 2) p = ''/.'' then take (length p - 2) p else p)"

definition table_world :: "(string \<times> string list) list \<Rightarrow> string list \<Rightarrow> world" where
  "table_world dirs files =
     \<lparr> path_exists = (\<lambda>p. p \<in> set files \<or> map_of dirs (strip_dot p) \<noteq> None),
       path_isdir = (\<lambda>p. map_of dirs (strip_dot p) \<noteq> None),
       listdir = (\<lambda>p. case map_of dirs p of None \<Rightarrow> Inl OSError | Some names \<Rightarrow> Inr names),
       fnmatch = fnmatch_posix \<rparr>"

text \<open>A working directory with the two entries \<open>abd\<close> and \<open>acd\<close>.\<close>

definition brace_world :: world where
  "brace_world = table_world [(''.'', [''abd'', ''acd''])] [''abd'', ''acd'']"

text \<open>A working directory with the two entries \<open>.hidden\<close> and \<open>visible\<close>.\<close>

definition dot_world :: world where
  "dot_world = table_world [(''.'', [''.hidden'', ''visible''])] [''.hidden'', ''visible'']"

text \<open>A root directory whose one entry \<open>f\<close> is a regular file.\<close>

definition file_world :: world where
  "file_world = table_world [(''/'', [''f''])] [''/f'']"

text \<open>A working directory that holds \<open>a/b/c.txt\<close>, and the entry \<open>foo\<close>.\<close>

definition literal_world :: world where
  "literal_world =
     table_world [(''.'', [''a'', ''foo'']), (''a'', [''b'']), (''a/b'', [''c.txt''])]
       [''a/b/c.txt'', ''foo'']"

text \<open>
  The chain the spec describes for \<open>a/b/c.txt\<close> with folding disabled: one
  \<open>ConstantDirectory\<close> node for each segment, then the \<open>ConstantEntry\<close> leaf with the
  default suffix list, each node carrying the separator in front of its segment.
\<close>

definition spec_unfolded_chain :: "int \<Rightarrow> node" where
  "spec_unfolded_chain fl =
     Node (ConstantDirectory ''a'') fl
       (Some (Node (ConstantDirectory ''b'') fl
          (Some (Node (ConstantEntry ''c.txt'' [[]]) fl None (Some ''/'')))
          (Some ''/'')))
       None"

text \<open>
  A working directory with the directory \<open>a\<close>, which holds the directory \<open>b\<close>, and
  one entry whose name starts with \<open>x\<close> at each level.
\<close>

definition tree_world :: world where
  "tree_world =
     table_world [(''.'', [''a'', ''x0'']), (''a'', [''b'', ''x1'']), (''a/b'', [''x2''])]
       [''x0'', ''a/x1'', ''a/b/x2'']"

text \<open>The chain \<open>single_compile\<close> returns for \<open>**/x*\<close>, and its leaf.\<close>

definition entry_leaf :: node where
  "entry_leaf = Node (EntryMatch ''x*'' [[]]) 0 None (Some ''/'')"

definition recursive_chain :: node where
  "recursive_chain = Node StartRecursiveDirectories 0 (Some entry_leaf) None"

text \<open>
  The node \<open>single_compile\<close> builds for the segment \<open>**\<close> of \<open>*/**/x*\<close>.
\<close>

definition recursive_node :: node where
  "recursive_node = Node RecursiveDirectories 0 (Some entry_leaf) (Some ''/'')"


text \<open>
  A directory \<open>d\<close> that holds the directory \<open>r\<close> and a symbolic link \<open>l\<close> to \<open>r\<close>:
  \<open>os.path.isdir\<close> and \<open>os.listdir\<close> follow the link, so \<open>d/l\<close> is a directory with
  the listing of \<open>d/r\<close>. \<open>link_ident\<close> gives each path of this file system the
  directory it denotes, named by its path without links.
\<close>

definition link_world :: world where
  "link_world =
     table_world [(''d'', [''l'', ''r'']), (''d/l'', [''x1'']), (''d/r'', [''x1''])]
       [''d/l/x1'', ''d/r/x1'']"

definition link_ident :: "string \<Rightarrow> string" where
  "link_ident p = (if p = ''d/l'' then ''d/r'' else p)"

subsection \<open>Notions used to state the properties\<close>

text \<open>\<open>extends old new\<close>: \<open>new\<close> is \<open>old\<close> with elements appended at the end.\<close>

definition extends :: "'a list \<Rightarrow> 'a list \<Rightarrow> bool" where
  "extends old new = (\<exists>added. new = old @ added)"

text \<open>
  \<open>pushable\<close> is the test under which the loops over a listing push an entry;
  \<open>child w dots sp p q\<close> holds if the loop of \<open>call_with_stack\<close>, having popped the path
  \<open>p\<close>, may push the path \<open>q\<close>.

  A path is a name, not a directory: through a symbolic link, or through \<open>.\<close>, two paths
  denote one directory, and \<open>os.path.isdir\<close> and \<open>os.listdir\<close> follow both. So the shape
  of the file system is stated on the directories: \<open>ident\<close> gives each path the identity
  of the directory it denotes (of any type: the device and inode numbers, or a path
  without links), and \<open>rank\<close> is a number on identities. A finite acyclic directory
  tree, as the walk sees it: the rank falls from each directory to each child; a
  directory is the child of one directory only, and under one name only; a listing
  names no entry twice (listings are lists, so each is finite). \<open>roots\<close> is what is asked
  of an initial stack: no directory twice, and a directory of the stack is the child of
  a directory only if that one ranks above the whole stack. For the one-element stack
  of \<open>RecursiveDirectories.call\<close> this follows from the rank falling.
\<close>

definition pushable :: "world \<Rightarrow> bool \<Rightarrow> (string \<Rightarrow> string) \<Rightarrow> string \<Rightarrow> bool" where
  "pushable w dots mk ent =
     (path_isdir w (mk ent) \<and> (dots \<or> (ent \<noteq> [] \<and> hd ent \<noteq> CHR ''.'')))"

definition child :: "world \<Rightarrow> bool \<Rightarrow> string option \<Rightarrow> string \<Rightarrow> string \<Rightarrow> bool" where
  "child w dots sp p q =
     (\<exists>ents ent. listdir w p = Inr ents \<and> ent \<in> set ents
        \<and> pushable w dots (path_join sp (Some p)) ent \<and> q = path_join sp (Some p) ent)"

definition directory_tree ::
  "world \<Rightarrow> bool \<Rightarrow> string option \<Rightarrow> (string \<Rightarrow> 'd) \<Rightarrow> ('d \<Rightarrow> nat) \<Rightarrow> bool" where
  "directory_tree w dots sp ident rank =
     ((\<forall>p q. child w dots sp p q \<longrightarrow> rank (ident q) < rank (ident p))
      \<and> (\<forall>p q p' q'. child w dots sp p q \<and> child w dots sp p' q' \<and> ident q = ident q'
            \<longrightarrow> ident p = ident p' \<and> (p = p' \<longrightarrow> q = q'))
      \<and> (\<forall>p ents. listdir w p = Inr ents \<longrightarrow> distinct ents))"




section \<open>Properties\<close>

subsection \<open>Appending only\<close>

lemma extends_refl [simp]: "extends m m"
  by (simp add: extends_def)

lemma extends_trans: "extends a b \<Longrightarrow> extends b c \<Longrightarrow> extends a c"
  by (auto simp: extends_def)

lemma extends_append [simp]: "extends m (m @ xs)"
  by (simp add: extends_def)

lemma for_each_extends:
  assumes body: "\<And>x s s' r. body x s = Some (s', r) \<Longrightarrow> extends (g s) (g s')"
    and run: "for_each body xs s = Some (s', r)"
  shows "extends (g s) (g s')"
  using run
proof (induction xs arbitrary: s)
  case Nil
  then show ?case by simp
next
  case (Cons x xs)
  from Cons.prems obtain s1 r1 where b: "body x s = Some (s1, r1)"
    by (auto split: option.splits)
  show ?case
  proof (cases r1)
    case (Inl e)
    with Cons.prems b have "s' = s1" by simp
    with body [OF b] show ?thesis by simp
  next
    case (Inr u)
    with Cons.prems b have "for_each body xs s1 = Some (s', r)" by simp
    from Cons.IH [OF this] body [OF b] show ?thesis by (rule extends_trans [rotated])
  qed
qed

lemma probe_suffixes_extends: "extends matches (probe_suffixes w stem ss matches)"
proof (induction ss arbitrary: matches)
  case Nil
  show ?case by simp
next
  case (Cons s ss)
  have "extends matches (if path_exists w (stem @ s) then matches @ [stem @ s] else matches)"
    by simp
  from this Cons.IH show ?case
    unfolding probe_suffixes.simps Let_def by (rule extends_trans)
qed

lemma match_suffix_extends:
  "match_suffix w g sp path f suffix matches = Some (matches', r) \<Longrightarrow> extends matches matches'"
  by (auto simp: match_suffix_def Let_def split: sum.splits if_splits)

lemma visit_extends:
  assumes nc: "\<And>m p m' r. next_call m p = Some (m', r) \<Longrightarrow> extends m m'"
    and v: "visit w next_call dots mk ent s = Some (s', r)"
  shows "extends (snd s) (snd s') \<and> extends (fst s) (fst s')"
  using v nc
  by (auto simp: visit_def Let_def split: if_splits option.splits)

lemma walk_extends:
  assumes run: "walk w next_call dots sp stack pushed matches = Some res"
    and nc: "\<And>m p m' r. next_call m p = Some (m', r) \<Longrightarrow> extends m m'"
  shows "extends matches (fst (snd res))"
proof -
  let ?P = "\<lambda>(w :: world) (nc :: string list \<Rightarrow> string \<Rightarrow> outcome option) (dots :: bool)
      (sp :: string option) (stack :: string list) (pushed :: string list)
      (matches :: string list) (res :: string list \<times> outcome).
      (\<forall>m p m' r. nc m p = Some (m', r) \<longrightarrow> extends m m') \<longrightarrow> extends matches (fst (snd res))"
  have "?P w next_call dots sp stack pushed matches res"
  proof (rule walk.raw_induct [where P = ?P, rotated, OF run], goal_cases)
    case (1 walk w next_call dots sp stack pushed matches res)
    show ?case
    proof
      assume nc: "\<forall>m p m' r. next_call m p = Some (m', r) \<longrightarrow> extends m m'"
      show "extends matches (fst (snd res))"
      proof (cases "stack = []")
        case True
        with 1(2) show ?thesis by auto
      next
        case False
        show ?thesis
        proof (cases "listdir w (last stack)")
          case (Inl e)
          with False 1(2) have
            "(if e = OSError then walk w next_call dots sp (butlast stack) pushed matches
              else Some (pushed, matches, Inl e)) = Some res"
            by (simp add: Let_def)
          then show ?thesis
            using 1(1) nc by (auto split: if_splits)
        next
          case (Inr ents)
          with False 1(2) obtain stack2 matches2 r where
            fe: "for_each (visit w next_call dots (path_join sp (Some (last stack)))) ents
                  (butlast stack, matches) = Some ((stack2, matches2), r)"
            and rest: "(if r = Inr () \<or> r = Inl OSError then
                       walk w next_call dots sp stack2
                         (pushed @ drop (length (butlast stack)) stack2) matches2
                     else Some (pushed @ drop (length (butlast stack)) stack2, matches2, r))
                   = Some res"
            by (auto simp: Let_def simp del: length_butlast split: option.splits)
          have "extends (snd (butlast stack, matches)) (snd (stack2, matches2))"
          proof (rule for_each_extends [OF _ fe])
            fix x s s' r'
            assume "visit w next_call dots (path_join sp (Some (last stack))) x s = Some (s', r')"
            from visit_extends [OF _ this] nc show "extends (snd s) (snd s')" by blast
          qed
          then have e1: "extends matches matches2" by simp
          from rest have "extends matches2 (fst (snd res))"
            using 1(1) nc by (auto split: if_splits)
          with e1 show ?thesis by (rule extends_trans)
        qed
      qed
    qed
  qed
  with nc show ?thesis by blast
qed

lemma call_with_stack_extends:
  assumes run: "call_with_stack w switched_call next_call dots sp stack matches = Some res"
    and sc: "\<And>m m' r. switched_call m = Some (m', r) \<Longrightarrow> extends m m'"
    and nc: "\<And>m p m' r. next_call m p = Some (m', r) \<Longrightarrow> extends m m'"
  shows "extends matches (fst (snd res))"
proof -
  from run obtain m1 r1 where s1: "switched_call matches = Some (m1, r1)"
    by (auto simp: call_with_stack_def split: option.splits)
  from sc [OF s1] have e1: "extends matches m1" .
  show ?thesis
  proof (cases r1)
    case (Inl e)
    with run s1 have "res = (stack, m1, Inl e)" by (simp add: call_with_stack_def)
    with e1 show ?thesis by simp
  next
    case (Inr u)
    with run s1 have "walk w next_call dots sp stack stack m1 = Some res"
      by (simp add: call_with_stack_def)
    then have "extends m1 (fst (snd res))"
      by (rule walk_extends) (erule nc)
    with e1 show ?thesis by (rule extends_trans)
  qed
qed

lemma RecursiveDirectories_call_extends:
  assumes run: "RecursiveDirectories_call w switched_call next_call dots sp matches start = Some res"
    and sc: "\<And>m m' r. switched_call m = Some (m', r) \<Longrightarrow> extends m m'"
    and nc: "\<And>m p m' r. next_call m p = Some (m', r) \<Longrightarrow> extends m m'"
  shows "extends matches (fst (snd res))"
proof (cases start)
  case None
  with run show ?thesis by (auto simp: RecursiveDirectories_call_def)
next
  case (Some s)
  show ?thesis
  proof (cases "path_exists w s")
    case False
    with run Some show ?thesis by (auto simp: RecursiveDirectories_call_def)
  next
    case True
    with run Some have "call_with_stack w switched_call next_call dots sp [s] matches = Some res"
      by (simp add: RecursiveDirectories_call_def)
    then show ?thesis
      by (rule call_with_stack_extends) (erule sc, erule nc)
  qed
qed

lemma StartRecursiveDirectories_call_extends:
  assumes run: "StartRecursiveDirectories_call w switched_call next_call dots sp matches start
      = Some res"
    and sc: "\<And>m m' r. switched_call m = Some (m', r) \<Longrightarrow> extends m m'"
    and nc: "\<And>m p m' r. next_call m p = Some (m', r) \<Longrightarrow> extends m m'"
  shows "extends matches (fst (snd res))"
proof (cases "truthy start")
  case True
  with run show ?thesis by (auto simp: StartRecursiveDirectories_call_def)
next
  case False
  show ?thesis
  proof (cases "listdir w ''.''")
    case (Inl e)
    with run False show ?thesis by (auto simp: StartRecursiveDirectories_call_def)
  next
    case (Inr ents)
    with run False obtain stack m1 r1 where
      fe: "for_each (visit w next_call dots (\<lambda>ent. ent)) ents ([], matches)
             = Some ((stack, m1), r1)"
      by (auto simp: StartRecursiveDirectories_call_def split: option.splits)
    have "extends (snd ([] :: string list, matches)) (snd (stack, m1))"
    proof (rule for_each_extends [OF _ fe])
      fix x s s' r'
      assume "visit w next_call dots (\<lambda>ent. ent) x s = Some (s', r')"
      from visit_extends [OF _ this] nc show "extends (snd s) (snd s')" by blast
    qed
    then have e1: "extends matches m1" by simp
    show ?thesis
    proof (cases r1)
      case (Inl e)
      with run False Inr fe have "res = (stack, m1, Inl e)"
        by (simp add: StartRecursiveDirectories_call_def)
      with e1 show ?thesis by simp
    next
      case r1: (Inr u)
      with run False Inr fe have
        "call_with_stack w switched_call next_call dots sp stack m1 = Some res"
        by (simp add: StartRecursiveDirectories_call_def)
      then have "extends m1 (fst (snd res))"
        by (rule call_with_stack_extends) (erule sc, erule nc)
      with e1 show ?thesis by (rule extends_trans)
    qed
  qed
qed

lemma call_extends:
  "call w node matches path = Some (matches', r) \<Longrightarrow> extends matches matches'"
proof (induction "depth node" arbitrary: node matches path matches' r rule: less_induct)
  case less
  obtain k fl nx sp where node: "node = Node k fl nx sp" by (cases node)
  define next_call where "next_call =
    (\<lambda>m p. case nx of None \<Rightarrow> Some (m, Inl AttributeError) | Some n \<Rightarrow> call w n m (Some p))"
  define switched_call where "switched_call =
    (\<lambda>m. case nx of None \<Rightarrow> Some (m, Inl AttributeError)
          | Some n \<Rightarrow> call w (set_separator sp n) m path)"
  have nc: "extends m m'" if "next_call m p = Some (m', r')" for m p m' r'
  proof (cases nx)
    case None
    with that show ?thesis by (simp add: next_call_def)
  next
    case (Some n)
    with node have "depth n < depth node" by simp
    from less.hyps [OF this] that Some show ?thesis by (simp add: next_call_def)
  qed
  have sc: "extends m m'" if "switched_call m = Some (m', r')" for m m' r'
  proof (cases nx)
    case None
    with that show ?thesis by (simp add: switched_call_def)
  next
    case (Some n)
    with node have "depth (set_separator sp n) < depth node" by simp
    from less.hyps [OF this] that Some show ?thesis by (simp add: switched_call_def)
  qed
  have vis: "extends (snd s) (snd s')"
    if "visit w next_call dots mk x s = Some (s', r')" for dots mk x s s' r'
    using visit_extends [OF _ that] nc by blast
  note run = less.prems [unfolded node call.simps, folded next_call_def switched_call_def]
  show ?case
  proof (cases k)
    case (ConstantDirectory dir)
    with run have "next_call matches (path_join sp path dir) = Some (matches', r)"
      by (simp add: Let_def next_call_def)
    then show ?thesis by (rule nc)
  next
    case (ConstantEntry name suffixes)
    with run show ?thesis by (auto simp: Let_def probe_suffixes_extends)
  next
    case RootDirectory
    with run have "next_call matches ''/'' = Some (matches', r)"
      by (simp add: next_call_def)
    then show ?thesis by (rule nc)
  next
    case RecursiveDirectories
    with run obtain res where
      rc: "RecursiveDirectories_call w switched_call next_call (allow_dots fl) sp matches path
             = Some res"
      and res: "snd res = (matches', r)"
      by auto
    have "extends matches (fst (snd res))"
      by (rule RecursiveDirectories_call_extends [OF rc]) (erule sc, erule nc)
    with res show ?thesis by simp
  next
    case StartRecursiveDirectories
    with run obtain res where
      rc: "StartRecursiveDirectories_call w switched_call next_call (allow_dots fl) sp matches path
             = Some res"
      and res: "snd res = (matches', r)"
      by auto
    have "extends matches (fst (snd res))"
      by (rule StartRecursiveDirectories_call_extends [OF rc]) (erule sc, erule nc)
    with res show ?thesis by simp
  next
    case (DirectoryMatch g)
    show ?thesis
    proof (cases "truthy path \<and> \<not> path_exists w (the path)")
      case True
      with run DirectoryMatch show ?thesis by auto
    next
      case False
      show ?thesis
      proof (cases "listdir w (if truthy path then the path else ''.'')")
        case (Inl e)
        with run DirectoryMatch False show ?thesis by auto
      next
        case (Inr ents)
        define body where "body =
                   (\<lambda>ent m.
                      case ismatch w g ent of
                        Inl e \<Rightarrow> Some (m, Inl e)
                      | Inr b \<Rightarrow>
                          if b then
                            (let full = path_join sp path ent
                             in if path_isdir w full then
                                  (case nx of
                                     None \<Rightarrow> Some (m, Inl AttributeError)
                                   | Some n \<Rightarrow> call w n m (Some full))
                                else Some (m, Inr ()))
                          else Some (m, Inr ()))"
        from Inr run DirectoryMatch False have
          fe: "for_each body ents matches = Some (matches', r)"
          by (auto simp: body_def)
        have b: "extends m m'" if "body x m = Some (m', r')" for x m m' r'
        proof (cases "ismatch w g x")
          case (Inl e)
          with that show ?thesis by (simp add: body_def)
        next
          case (Inr b)
          show ?thesis
          proof (cases "b \<and> path_isdir w (path_join sp path x)")
            case True
            with that Inr have "next_call m (path_join sp path x) = Some (m', r')"
              by (simp add: body_def next_call_def Let_def)
            then show ?thesis by (rule nc)
          next
            case False
            with that Inr show ?thesis by (auto simp: body_def Let_def split: if_splits)
          qed
        qed
        have "extends ((\<lambda>m. m) matches) ((\<lambda>m. m) matches')"
          by (rule for_each_extends [OF _ fe]) (erule b)
        then show ?thesis by simp
      qed
    qed
  next
    case (EntryMatch g suffixes)
    show ?thesis
    proof (cases "truthy path \<and> \<not> path_exists w (the path @ ''/.'')")
      case True
      with run EntryMatch show ?thesis by auto
    next
      case False
      show ?thesis
      proof (cases "listdir w (if truthy path then the path else ''.'')")
        case (Inl e)
        with run EntryMatch False show ?thesis by (auto split: if_splits)
      next
        case (Inr entries)
        with run EntryMatch False have
          fe: "for_each (\<lambda>f. for_each (match_suffix w g sp path f) suffixes) entries matches
                = Some (matches', r)"
          by auto
        have inner: "extends m m'"
          if "for_each (match_suffix w g sp path f) suffixes m = Some (m', r')" for f m m' r'
          using for_each_extends [where g = "\<lambda>m. m", OF _ that] match_suffix_extends by blast
        have "extends ((\<lambda>m. m) matches) ((\<lambda>m. m) matches')"
          by (rule for_each_extends [OF _ fe]) (erule inner)
        then show ?thesis by simp
      qed
    qed
  next
    case DirectoriesOnly
    with run show ?thesis by (auto split: if_splits)
  qed
qed

subsection \<open>The worklist loop on a directory tree\<close>

















subsection \<open>The example file systems\<close>






lemma link_world_children:
  "child link_world dots (Some ''/'') ''d'' ''d/l''"
  "child link_world dots (Some ''/'') ''d'' ''d/r''"
  by (simp_all add: child_def pushable_def link_world_def table_world_def strip_dot_def
      path_join_def truthy_def get_separator_def)

lemma link_world_not_tree:
  "\<not> directory_tree link_world dots (Some ''/'') link_ident rank"
proof
  assume "directory_tree link_world dots (Some ''/'') link_ident rank"
  then have "\<forall>p q p' q'. child link_world dots (Some ''/'') p q
      \<and> child link_world dots (Some ''/'') p' q' \<and> link_ident q = link_ident q'
      \<longrightarrow> link_ident p = link_ident p' \<and> (p = p' \<longrightarrow> q = q')"
    unfolding directory_tree_def by blast
  with link_world_children [of dots] have "link_ident ''d/l'' = link_ident ''d/r'' \<longrightarrow> ''d/l'' = ''d/r''"
    by blast
  then show False by (simp add: link_ident_def)
qed

lemma link_world_pushes_twice:
  "logged_call link_world recursive_node [] (Some ''d'')
     = Some ([''d'', ''d/l'', ''d/r''], [''d/l/x1'', ''d/r/x1''], Inr ())
   \<and> map link_ident [''d'', ''d/l'', ''d/r''] = [''d'', ''d/r'', ''d/r'']"
  by code_simp

subsection \<open>What the engine does with the nodes it is given\<close>

lemma entry_match_ignores_flags:
  "call w (Node (EntryMatch g ss) fl nx sp) m p = call w (Node (EntryMatch g ss) fl' nx sp) m p"
  by (simp add: call.simps)

lemma directory_match_ignores_flags:
  "call w (Node (DirectoryMatch g) fl nx sp) m p = call w (Node (DirectoryMatch g) fl' nx sp) m p"
  by (simp add: call.simps)

lemma constant_entry_call:
  "call w (Node (ConstantEntry name ss) fl nx sp) m p
     = Some (m @ filter (path_exists w) (map (\<lambda>s. path_join sp p name @ s) ss), Inr ())"
proof -
  have "probe_suffixes w stem ss m = m @ filter (path_exists w) (map (\<lambda>s. stem @ s) ss)"
    for stem
    by (induction ss arbitrary: m) (simp_all add: Let_def)
  then show ?thesis by (simp add: call.simps Let_def)
qed

lemma folded_directory_call:
  assumes "s0 \<noteq> []" and "s0 \<noteq> ''/''" and "sep0 \<noteq> []"
  shows "call w (Node (ConstantDirectory (s0 @ sep0 @ s1)) fl (Some n) sp) m p
     = call w (Node (ConstantDirectory s0) fl
                 (Some (Node (ConstantDirectory s1) fl (Some n) (Some sep0))) sp) m p"
proof -
  have "path_join (Some sep0) (Some (path_join sp p s0)) s1 = path_join sp p (s0 @ sep0 @ s1)"
  proof -
    have short: "a @ b = ''/'' \<Longrightarrow> a \<noteq> [] \<Longrightarrow> b = []" for a b :: string
      by (cases a) auto
    from assms show ?thesis
      by (auto simp: path_join_def truthy_def get_separator_def split: option.splits
          dest: short)
  qed
  then show ?thesis by (simp add: call.simps Let_def)
qed

lemma folding_loop_assertion: "single_compile ''a/b/c*'' 0 None = Inl AssertionError"
  by code_simp

lemma absolute_folding: "single_compile ''/a/b/c*'' 0 None =
  Inr (Some (Node RootDirectory 0
         (Some (Node (ConstantDirectory ''a/b'') 0
             (Some (Node (EntryMatch ''c*'' [[]]) 0 None (Some ''/'')))
             (Some ''/'')))
         None))"
  by code_simp

lemma str_replace_stars: "str_replace ''**'' ''*'' ''a**b'' = ''a*b''"
  by code_simp

subsection \<open>The claims\<close>

text \<open>
  C1. The claim: for every pattern and flag set, \<open>glob\<close> returns the list of matches, also
  when the pattern has a brace. The code: the branch of \<open>glob\<close> for a pattern with a brace
  runs every compiled chain and ends without a \<open>return\<close>; on \<open>a{b,c}d\<close>, in a directory
  that holds \<open>abd\<close> and \<open>acd\<close>, the call returns \<open>None\<close>, not a list.
\<close>

theorem glob_brace_returns_None:
  "glob brace_world ''a{b,c}d'' 0 None = Some ([], Inr None)"
  by code_simp

text \<open>
  C2. The claim: \<open>a{b,c}d\<close> compiles to the two patterns \<open>abd\<close> and \<open>acd\<close>, the brace body
  being split on commas. The code: the inner loop of \<open>compile\<close> stops at \<open>?\<close>, not at a
  comma, so the body \<open>b,c\<close> is one alternative and \<open>compile\<close> returns the single chain
  of the pattern \<open>ab,cd\<close>.
\<close>

theorem compile_brace_comma_not_split:
  "compile ''a{b,c}d'' 0 [] = Inr [Node (EntryMatch ''ab,cd'' [[]]) 0 None None]"
  by code_simp

text \<open>
  C3. The claim: \<open>glob\<close> never fails, and the empty pattern gives an empty result. The
  code: on the empty pattern \<open>path_split\<close> pops the only element of \<open>ret\<close> and then reads
  \<open>ret[-1]\<close>; \<open>glob\<close> raises \<open>IndexError\<close>, whatever the file system and the flags.
\<close>

theorem glob_empty_pattern_raises:
  "glob w [] fl None = Some ([], Inl IndexError)"
  by (simp add: glob_def single_compile_def path_split_def)

text \<open>
  C4. The claim: compiling \<open>a/b/c.txt\<close> with folding gives the same matches as the chain
  with one \<open>ConstantDirectory\<close> node for each segment. The code: where the file exists,
  the unfolded chain finds it, and \<open>glob\<close> on the pattern raises \<open>TypeError\<close>, from the
  initialiser of \<open>ConstantEntry\<close>. With a wildcard leaf (\<open>a/b/c*\<close>) the folding loop is
  reached, and its assertion \<open>partidx >= 0\<close> fails once the first segment is absorbed.
\<close>

theorem glob_literal_path_raises:
  "run literal_world (spec_unfolded_chain 0) None = Some ([''a/b/c.txt''], Inr [''a/b/c.txt''])
   \<and> glob literal_world ''a/b/c.txt'' 0 None = Some ([], Inl TypeError)
   \<and> glob literal_world ''a/b/c*'' 0 None = Some ([], Inl AssertionError)"
  by code_simp

text \<open>
  C5. The claim: a pattern with no metacharacter and no separator returns the pattern
  itself if an entry of that name exists. The code: for such a pattern \<open>single_compile\<close>
  builds a \<open>ConstantEntry\<close>, whose initialiser raises \<open>TypeError\<close>; \<open>foo\<close> exists in the
  working directory and \<open>glob\<close> raises.
\<close>

theorem glob_constant_name_raises:
  "path_exists literal_world ''foo''
   \<and> glob literal_world ''foo'' 0 None = Some ([], Inl TypeError)"
  by code_simp

text \<open>
  C6. The claim: in a directory with \<open>.hidden\<close> and \<open>visible\<close>, \<open>glob("*")\<close> returns only
  \<open>visible\<close>, and both with the dot-match flag. The code: \<open>EntryMatch.call\<close> and
  \<open>ismatch\<close> never read the flags, and \<open>fnmatch.fnmatch\<close> lets \<open>*\<close> match a leading dot;
  both calls return both names.
\<close>

theorem glob_star_matches_hidden:
  "glob dot_world ''*'' 0 None
     = Some ([''.hidden'', ''visible''], Inr (Some [''.hidden'', ''visible'']))
   \<and> glob dot_world ''*'' FNM_DOTMATCH None
     = Some ([''.hidden'', ''visible''], Inr (Some [''.hidden'', ''visible'']))"
  by code_simp

text \<open>
  C7. The claim: every node that lists a directory catches a failure of the listing, and
  no error leaves \<open>glob\<close>. The code: \<open>DirectoryMatch.call\<close> calls \<open>os.listdir\<close> outside any
  \<open>try\<close>; with \<open>/f\<close> a regular file, \<open>glob\<close> on \<open>/f/*/x*\<close> raises \<open>OSError\<close>.
\<close>

theorem glob_directory_match_listing_error:
  "path_exists file_world ''/f'' \<and> \<not> path_isdir file_world ''/f''
   \<and> glob file_world ''/f/*/x*'' 0 None = Some ([], Inl OSError)"
  by code_simp

text \<open>
  C8. The match list is append-only: whatever the node, the file system, the list and
  the path, a call that stops (by returning or by raising) leaves the list as it was,
  with the new matches appended at the end.
\<close>

theorem call_appends_only:
  "call w node matches path = Some (matches', r) \<Longrightarrow> \<exists>added. matches' = matches @ added"
  using call_extends [of w node matches path matches' r] by (simp add: extends_def)

theorem call_appends_only_witness:
  "call tree_world recursive_chain [''seed''] None
     = Some ([''seed'', ''a/x1'', ''x0'', ''a/b/x2''], Inr ())
   \<and> (\<exists>added. [''seed'', ''a/x1'', ''x0'', ''a/b/x2''] = [''seed''] @ added)"
proof -
  have run: "call tree_world recursive_chain [''seed''] None
     = Some ([''seed'', ''a/x1'', ''x0'', ''a/b/x2''], Inr ())"
    by code_simp
  from call_appends_only [OF run] run show ?thesis by simp
qed



text \<open>
  C10. Constructing a \<open>DirectoryMatch\<close> node leaves the stored pattern equal to the
  string passed in: the result of \<open>replace("**", "*")\<close> is dropped.
\<close>

theorem DirectoryMatch_init_keeps_glob:
  "DirectoryMatch_init nx fl segment = Node (DirectoryMatch segment) fl nx None"
  by (simp add: DirectoryMatch_init_def Let_def)

end
